theory Spec2Isabelle
  imports Complex_Main "HOL-Library.Sublist" "HOL-Library.Char_ord" "HOL-Library.List_Lexorder"
    "HOL-Library.Log_Nat" "HOL-Library.Stream"
begin

section \<open>Data model\<close>

text \<open>
  An anime object as the scripts read it from a season file. Only the fields the filter,
  the picker, the loader and the genre derivation touch are kept.
  \<^item> \<open>is_hentai\<close> is a JSON boolean; the scripts test it by truthiness.
  \<^item> \<open>score\<close> is a JSON number or \<open>null\<close>/missing (\<open>None\<close>).
  \<^item> \<open>is_japanese\<close> is a JSON boolean or missing (\<open>None\<close>); the scripts compare
    it with \<open>=== false\<close>.
  \<^item> \<open>genres\<close> is an array of strings or missing (\<open>None\<close>).
  \<^item> \<open>year\<close> and \<open>season\<close> are missing in a raw season file; the loader writes them.
\<close>

record anime =
  title :: string
  is_hentai :: bool
  score :: "real option"
  is_japanese :: "bool option"
  genres :: "string list option"
  year :: "int option"
  season :: "string option"

datatype filter_mode = ModeOR | ModeAND

text \<open>
  The page-level variables the filters read (\<open>showHentai\<close>, \<open>hideNotRated\<close>,
  \<open>japaneseOnly\<close>, \<open>selectedGenres\<close>, \<open>filterMode\<close>). The JavaScript \<open>Set\<close> of
  selected genres is the list \<open>Array.from(selectedGenres)\<close>; \<open>filterMode\<close> is the string
  \<open>'OR'\<close> or anything else, and anything else takes the AND branch.
\<close>

record settings =
  showHentai :: bool
  hideNotRated :: bool
  japaneseOnly :: bool
  selectedGenres :: "string list"
  filterMode :: filter_mode

section \<open>The season browser's filter (app.js, filterAnime)\<close>

text \<open>\<open>!anime.score || anime.score === null || anime.score === undefined\<close>: a missing
  score, \<open>null\<close> and the number 0 are all falsy.\<close>

definition score_falsy :: "real option \<Rightarrow> bool" where
  "score_falsy s = (case s of None \<Rightarrow> True | Some v \<Rightarrow> v = 0)"

text \<open>\<open>anime.genres || []\<close>\<close>

definition genres_or_empty :: "anime \<Rightarrow> string list" where
  "genres_or_empty a = (case genres a of None \<Rightarrow> [] | Some gs \<Rightarrow> gs)"

text \<open>The callback of \<open>animeList.filter\<close>, with its early returns in the source's order.\<close>

definition filterAnime_keep :: "settings \<Rightarrow> anime \<Rightarrow> bool" where
  "filterAnime_keep st a =
     (if \<not> showHentai st \<and> is_hentai a then False
      else if hideNotRated st \<and> score_falsy (score a) then False
      else if japaneseOnly st \<and> is_japanese a = Some False then False
      else if selectedGenres st \<noteq> [] then
        (let animeGenres = genres_or_empty a in
         if filterMode st = ModeOR then
           (let hasSelectedGenre = list_ex (\<lambda>genre. List.member animeGenres genre) (selectedGenres st)
            in if \<not> hasSelectedGenre then False else True)
         else
           (let hasAllGenres = list_all (\<lambda>genre. List.member animeGenres genre) (selectedGenres st)
            in if \<not> hasAllGenres then False else True))
      else True)"

definition filterAnime :: "settings \<Rightarrow> anime list \<Rightarrow> anime list" where
  "filterAnime st animeList = filter (filterAnime_keep st) animeList"

text \<open>
  The four conditions in the specification's words: adult content visible or the flag
  false; unrated shown or the rating present; Japanese-only off or the flag not an explicit
  false; no genre selected, or the genre condition of the active mode.
\<close>

definition spec_passes :: "settings \<Rightarrow> anime \<Rightarrow> bool" where
  "spec_passes st a =
     ((showHentai st \<or> \<not> is_hentai a)
      \<and> (\<not> hideNotRated st \<or> score a \<noteq> None)
      \<and> (\<not> japaneseOnly st \<or> is_japanese a \<noteq> Some False)
      \<and> (selectedGenres st = []
           \<or> (case filterMode st of
                 ModeOR \<Rightarrow> set (genres_or_empty a) \<inter> set (selectedGenres st) \<noteq> {}
               | ModeAND \<Rightarrow> set (selectedGenres st) \<subseteq> set (genres_or_empty a))))"

text \<open>Concrete inputs: the two records of the specification's scenario, and a record rated 0.\<close>

definition rec_A :: anime where
  "rec_A = \<lparr>title = ''A'', is_hentai = False, score = Some 7.5, is_japanese = Some True,
            genres = Some [''Action'', ''Comedy''], year = None, season = None\<rparr>"

definition rec_B :: anime where
  "rec_B = \<lparr>title = ''B'', is_hentai = False, score = None, is_japanese = Some False,
            genres = Some [''Comedy''], year = None, season = None\<rparr>"

definition rec_zero :: anime where
  "rec_zero = \<lparr>title = ''Z'', is_hentai = False, score = Some 0, is_japanese = Some True,
               genres = Some [''Comedy''], year = None, season = None\<rparr>"

definition cfg_action :: settings where
  "cfg_action = \<lparr>showHentai = False, hideNotRated = True, japaneseOnly = True,
                 selectedGenres = [''Action''], filterMode = ModeOR\<rparr>"

definition cfg_default :: settings where
  "cfg_default = \<lparr>showHentai = False, hideNotRated = True, japaneseOnly = True,
                  selectedGenres = [], filterMode = ModeOR\<rparr>"

section \<open>The random pickers (random.js and data_cn.js, getRandomAnime)\<close>

text \<open>
  What a picker hands on: \<open>NoResult\<close> is \<open>null\<close> in random.js and the "No anime found"
  card in data_cn.js; \<open>Picked a\<close> is the record returned (random.js) or passed to
  \<open>displayRandomAnime\<close> (data_cn.js); \<open>Undefined\<close> is what a JavaScript array read
  gives outside the array.
\<close>

datatype pick = NoResult | Undefined | Picked anime

text \<open>\<open>xs[i]\<close> for a JavaScript array and an integral index.\<close>

definition js_index :: "anime list \<Rightarrow> int \<Rightarrow> pick" where
  "js_index xs i = (if 0 \<le> i \<and> i < int (length xs) then Picked (xs ! nat i) else Undefined)"

text \<open>
  JavaScript numbers are IEEE 754 doubles. The values met here are not negative: a double
  is written \<open>mant / 2 ^ expo\<close> with a significand below \<open>2 ^ 53\<close>, and \<open>unit_double\<close>
  says that it is a double of the interval \<open>[0,1)\<close>, which is what \<open>Math.random()\<close>
  returns (the smallest exponent of a double is \<open>-1074\<close>).

  \<open>round53\<close> rounds a natural number to 53 significant bits, to the nearest and on a tie
  to the even significand, as a double operation rounds its exact result; \<open>floorlog 2 p\<close>
  is the number of bits of \<open>p\<close>. \<open>floor_times d n\<close> is \<open>Math.floor(d * n)\<close> for an array
  length \<open>n\<close> (an integer below \<open>2 ^ 32\<close>, so itself a double): the exact product is
  \<open>mant d * n / 2 ^ expo d\<close>, the double product is \<open>round53 (mant d * n) / 2 ^ expo d\<close>
  (it neither overflows nor falls below the normal range), and its floor is the quotient.
\<close>

record double =
  mant :: nat
  expo :: nat



definition round53 :: "nat \<Rightarrow> nat" where
  "round53 p =
     (let b = floorlog 2 p in
      if b \<le> 53 then p
      else (let s = b - 53; q = p div 2 ^ s; r = p mod 2 ^ s; half = 2 ^ (s - 1)
            in (if r > half \<or> (r = half \<and> odd q) then q + 1 else q) * 2 ^ s))"

definition floor_times :: "double \<Rightarrow> nat \<Rightarrow> int" where
  "floor_times d n = int (round53 (mant d * n) div 2 ^ expo d)"

text \<open>
  \<open>Math.random\<close> is a global of the page: a generator, the stream of the values it will
  return. A call returns the next value and leaves the rest.
\<close>

type_synonym generator = "double stream"

definition Math_random :: "generator \<Rightarrow> double \<times> generator" where
  "Math_random g = (shd g, stl g)"

text \<open>
  The last lines of both pickers: nothing for an empty list, and the generator is not
  called; otherwise the element at \<open>Math.floor(Math.random() * filtered.length)\<close>.
\<close>

definition pick_at_random :: "anime list \<Rightarrow> generator \<Rightarrow> pick \<times> generator" where
  "pick_at_random filtered g =
     (if length filtered = 0 then (NoResult, g)
      else (let (rnd, g') = Math_random g;
                randomIndex = floor_times rnd (length filtered)
            in (js_index filtered randomIndex, g')))"

subsection \<open>random.js\<close>

text \<open>
  The callback of \<open>allAnimeCache.filter\<close> in random.js. \<open>selected\<close> is the set of active
  genre buttons read from the page; the function reads no other page variable.
\<close>

definition random_js_keep :: "string list \<Rightarrow> anime \<Rightarrow> bool" where
  "random_js_keep selected a =
     (if selected \<noteq> [] then
        (case genres a of
           None \<Rightarrow> False
         | Some gs \<Rightarrow> if \<not> list_ex (\<lambda>genre. List.member selected genre) gs then False else True)
      else True)"

definition getRandomAnime_random_js ::
  "string list \<Rightarrow> anime list \<Rightarrow> generator \<Rightarrow> pick \<times> generator" where
  "getRandomAnime_random_js selected allAnimeCache g =
     (let filteredAnime = filter (random_js_keep selected) allAnimeCache
      in pick_at_random filteredAnime g)"

subsection \<open>data_cn.js\<close>

text \<open>
  \<open>hasScore\<close> is \<open>typeof anime.score === 'number' && !Number.isNaN(anime.score)\<close> and
  \<open>scoreValue\<close> is \<open>hasScore ? anime.score : 0\<close>; the number 0 has a score here.
\<close>

definition hasScore :: "anime \<Rightarrow> bool" where
  "hasScore a = (case score a of None \<Rightarrow> False | Some v \<Rightarrow> True)"

definition scoreValue :: "anime \<Rightarrow> real" where
  "scoreValue a = (case score a of None \<Rightarrow> 0 | Some v \<Rightarrow> v)"

text \<open>The two rating tests that end the callback; \<open>ratingFilter\<close> is the slider's value.\<close>

definition rating_filter :: "real \<Rightarrow> anime \<Rightarrow> bool" where
  "rating_filter ratingFilter a =
     (if \<not> hasScore a \<and> ratingFilter > 0 then False
      else if hasScore a \<and> scoreValue a < ratingFilter then False
      else True)"

definition getRandomAnime_keep :: "settings \<Rightarrow> real \<Rightarrow> anime \<Rightarrow> bool" where
  "getRandomAnime_keep st ratingFilter a =
     (if \<not> showHentai st \<and> is_hentai a then False
      else if hideNotRated st \<and> \<not> hasScore a then False
      else if japaneseOnly st \<and> is_japanese a = Some False then False
      else if selectedGenres st \<noteq> []
              \<and> (let animeGenres = genres_or_empty a in
                   if filterMode st = ModeOR then
                     (let hasAnyGenre = list_ex (\<lambda>genre. List.member animeGenres genre) (selectedGenres st)
                      in \<not> hasAnyGenre)
                   else
                     (let hasAllGenres = list_all (\<lambda>genre. List.member animeGenres genre) (selectedGenres st)
                      in \<not> hasAllGenres))
           then False
      else rating_filter ratingFilter a)"

text \<open>\<open>allAnime\<close> is what \<open>await loadAllAnimeData()\<close> gave.\<close>

definition getRandomAnime_data_cn ::
  "settings \<Rightarrow> real \<Rightarrow> anime list \<Rightarrow> generator \<Rightarrow> pick \<times> generator" where
  "getRandomAnime_data_cn st ratingFilter allAnime g =
     (let filtered = filter (getRandomAnime_keep st ratingFilter) allAnime
      in pick_at_random filtered g)"

text \<open>
  Concrete random values: 0, one half, and a double whose product with 7 lies one unit in
  the last place below 4; and seven records that differ in their titles.
\<close>

definition zero_double :: double where
  "zero_double = \<lparr>mant = 0, expo = 0\<rparr>"

definition half_double :: double where
  "half_double = \<lparr>mant = 1, expo = 1\<rparr>"



definition rec_adult :: anime where
  "rec_adult = \<lparr>title = ''H'', is_hentai = True, score = Some 6, is_japanese = Some True,
                genres = Some [''Hentai''], year = None, season = None\<rparr>"


section \<open>The catalog loader (random.js and data_cn.js, loadAllAnimeData)\<close>

text \<open>
  A manifest entry \<open>{year, season, count}\<close>, and what the network gives for one season
  file: \<open>fetch\<close> rejects, the response is not \<open>ok\<close>, the body does not parse to an
  array, or the body is an array of anime objects.

  A promise is pending, rejected or fulfilled with a value. \<open>annotate\<close> is the object
  spread \<open>{...anime, year: item.year, season: item.season}\<close>. \<open>season_try\<close> is the
  \<open>try\<close> block of the arrow function mapped over the manifest and \<open>season_promise\<close>
  adds its \<open>catch\<close>, which logs and returns \<open>[]\<close>.

  \<open>Promise_all\<close> follows the language: the promises settle in some order of arrival (the
  list \<open>order\<close> of positions), each fulfilled value is stored at the position of its
  promise, a rejection rejects the whole, and the result is fulfilled with the stored
  values once every position is filled. \<open>load_body\<close> is the body of the inner async
  function up to the value it assigns to \<open>allAnimeCache\<close>:
  \<open>(await Promise.all(allAnimePromises)).flat()\<close>. \<open>partition_records\<close> names what one
  partition contributes.
\<close>

record manifest_item =
  item_year :: int
  item_season :: string
  item_count :: nat

datatype response = NetworkError | HttpError | BadBody | Body "anime list"

datatype 'a promise = Pending | Rejected | Fulfilled 'a

definition annotate :: "manifest_item \<Rightarrow> anime \<Rightarrow> anime" where
  "annotate item a = a\<lparr>year := Some (item_year item), season := Some (item_season item)\<rparr>"

definition season_try :: "response \<Rightarrow> manifest_item \<Rightarrow> anime list promise" where
  "season_try resp item =
     (case resp of
        NetworkError \<Rightarrow> Rejected
      | HttpError \<Rightarrow> Fulfilled []
      | BadBody \<Rightarrow> Rejected
      | Body seasonData \<Rightarrow> Fulfilled (map (annotate item) seasonData))"

definition season_promise :: "(manifest_item \<Rightarrow> response) \<Rightarrow> manifest_item \<Rightarrow> anime list promise" where
  "season_promise net item =
     (case season_try (net item) item of
        Rejected \<Rightarrow> Fulfilled []
      | other \<Rightarrow> other)"

fun all_settle :: "nat list \<Rightarrow> 'a promise list \<Rightarrow> 'a option list \<Rightarrow> 'a list promise" where
  "all_settle [] ps vals =
     (if list_all (\<lambda>v. v \<noteq> None) vals then Fulfilled (map the vals) else Pending)"
| "all_settle (i # order) ps vals =
     (if i < length ps then
        (case ps ! i of
           Rejected \<Rightarrow> Rejected
         | Fulfilled v \<Rightarrow> all_settle order ps (vals[i := Some v])
         | Pending \<Rightarrow> all_settle order ps vals)
      else all_settle order ps vals)"

definition Promise_all :: "nat list \<Rightarrow> 'a promise list \<Rightarrow> 'a list promise" where
  "Promise_all order ps = all_settle order ps (replicate (length ps) None)"

definition load_body :: "(manifest_item \<Rightarrow> response) \<Rightarrow> nat list \<Rightarrow> manifest_item list \<Rightarrow> anime list promise" where
  "load_body net order manifest =
     (let allAnimePromises = map (season_promise net) manifest in
      case Promise_all order allAnimePromises of
        Fulfilled allAnimeArrays \<Rightarrow> Fulfilled (concat allAnimeArrays)
      | Rejected \<Rightarrow> Rejected
      | Pending \<Rightarrow> Pending)"

definition partition_records :: "(manifest_item \<Rightarrow> response) \<Rightarrow> manifest_item \<Rightarrow> anime list" where
  "partition_records net item =
     (case net item of Body seasonData \<Rightarrow> map (annotate item) seasonData | _ \<Rightarrow> [])"

text \<open>
  The loader as a state machine over the page variables \<open>manifest\<close>, \<open>allAnimeCache\<close>
  and \<open>allAnimePromise\<close> (the number of the load in flight, \<open>None\<close> for \<open>null\<close>).
  \<open>fetched\<close> logs every \<open>fetch\<close> of a season file and \<open>loads\<close> counts the loads
  started. A call returns at once (\<open>Now\<close>) or hands out the promise of a load in flight
  (\<open>Later\<close>); starting a load issues one fetch per manifest entry before the first
  suspension. \<open>settle\<close> is the resumption of the load in flight after \<open>Promise.all\<close>:
  it stores the result and, in \<open>finally\<close>, clears \<open>allAnimePromise\<close>; with no load in
  flight nothing can resume. The script runs on one thread, so a run of the page is a
  sequence of such events.
\<close>

record loader =
  manifest :: "manifest_item list"
  allAnimeCache :: "anime list"
  allAnimePromise :: "nat option"
  fetched :: "manifest_item list"
  loads :: nat








text \<open>Concrete manifests and networks.\<close>

definition winter24 :: manifest_item where
  "winter24 = \<lparr>item_year = 2024, item_season = ''winter'', item_count = 2\<rparr>"

definition spring24 :: manifest_item where
  "spring24 = \<lparr>item_year = 2024, item_season = ''spring'', item_count = 1\<rparr>"

definition net_ok :: "manifest_item \<Rightarrow> response" where
  "net_ok item = (if item_season item = ''winter'' then Body [rec_A, rec_B] else Body [rec_zero])"



section \<open>The genre lists (random.js and data_cn.js, loadGenres; app.js, extractGenres)\<close>

text \<open>
  \<open>genre && genre !== 'Hentai'\<close>: the empty string is falsy, so it is left out as well.

  \<open>genreCounts\<close> is a JavaScript \<open>Map\<close>, which keeps its keys in the order of first
  insertion: an association list, where \<open>map_set\<close> overwrites the value of a key in
  place and appends a new key. \<open>count_genre\<close> is
  \<open>genreCounts.set(genre, (genreCounts.get(genre) || 0) + 1)\<close> under the test above, and
  \<open>count_genres\<close> the two nested \<open>forEach\<close> loops.

  \<open>loadGenres\<close> sorts the entries with the comparator \<open>b[1] - a[1]\<close> (stable, larger
  counts first: \<open>sort_key\<close> on the negated count), keeps the first 30, takes the names
  and sorts them with the default order of \<open>sort()\<close>, the lexicographic order of the
  strings' code units.

  \<open>extractGenres\<close> collects the same genres in a \<open>Set\<close> (a list without repetition,
  \<open>set_add\<close>) and sorts it.
\<close>

definition genre_counted :: "string \<Rightarrow> bool" where
  "genre_counted genre \<longleftrightarrow> genre \<noteq> [] \<and> genre \<noteq> ''Hentai''"

fun map_set :: "string \<Rightarrow> nat \<Rightarrow> (string \<times> nat) list \<Rightarrow> (string \<times> nat) list" where
  "map_set k v [] = [(k, v)]"
| "map_set k v ((k', v') # es) = (if k' = k then (k, v) # es else (k', v') # map_set k v es)"

definition count_genre :: "(string \<times> nat) list \<Rightarrow> string \<Rightarrow> (string \<times> nat) list" where
  "count_genre genreCounts genre =
     (if genre_counted genre
      then map_set genre ((case map_of genreCounts genre of None \<Rightarrow> 0 | Some c \<Rightarrow> c) + 1) genreCounts
      else genreCounts)"

definition count_genres :: "anime list \<Rightarrow> (string \<times> nat) list" where
  "count_genres allAnime =
     fold (\<lambda>anime genreCounts.
             case genres anime of
               None \<Rightarrow> genreCounts
             | Some gs \<Rightarrow> fold (\<lambda>genre m. count_genre m genre) gs genreCounts)
          allAnime []"

definition loadGenres :: "anime list \<Rightarrow> string list" where
  "loadGenres allAnime =
     sort (map fst (take 30 (sort_key (\<lambda>entry. - int (snd entry)) (count_genres allAnime))))"

definition set_add :: "string \<Rightarrow> string list \<Rightarrow> string list" where
  "set_add genre genreSet = (if genre \<in> set genreSet then genreSet else genreSet @ [genre])"

definition extractGenres :: "anime list \<Rightarrow> string list" where
  "extractGenres allAnimeData =
     sort (fold (\<lambda>anime genreSet.
                   case genres anime of
                     None \<Rightarrow> genreSet
                   | Some gs \<Rightarrow> fold (\<lambda>genre S. if genre_counted genre then set_add genre S else S)
                                 gs genreSet)
                allAnimeData [])"

text \<open>
  For the statements: every genre occurrence of a collection, record by record, and the
  count stored for a genre in an association list (0 when it has no entry).
\<close>

definition all_genres :: "anime list \<Rightarrow> string list" where
  "all_genres rs = concat (map genres_or_empty rs)"

definition cnt :: "(string \<times> nat) list \<Rightarrow> string \<Rightarrow> nat" where
  "cnt m g = (case map_of m g of None \<Rightarrow> 0 | Some c \<Rightarrow> c)"

text \<open>
  Concrete collections: 31 different one-letter genres in one record, and a second record
  with all of them but the first, \<open>''A''\<close>.
\<close>

definition many_genres :: "string list" where
  "many_genres = map (\<lambda>c. [c]) ''ABCDEFGHIJKLMNOPQRSTUVWXYZabcde''"

definition rec_many :: anime where
  "rec_many = \<lparr>title = ''M'', is_hentai = False, score = Some 7, is_japanese = Some True,
               genres = Some many_genres, year = None, season = None\<rparr>"

definition rec_most :: anime where
  "rec_most = \<lparr>title = ''N'', is_hentai = False, score = Some 8, is_japanese = Some True,
               genres = Some (tl many_genres), year = None, season = None\<rparr>"

section \<open>Properties of the filter\<close>

lemma filterAnime_keep_iff:
  "filterAnime_keep st a \<longleftrightarrow>
     (showHentai st \<or> \<not> is_hentai a)
     \<and> (\<not> hideNotRated st \<or> (score a \<noteq> None \<and> score a \<noteq> Some 0))
     \<and> (\<not> japaneseOnly st \<or> is_japanese a \<noteq> Some False)
     \<and> (selectedGenres st = []
          \<or> (case filterMode st of
                ModeOR \<Rightarrow> set (genres_or_empty a) \<inter> set (selectedGenres st) \<noteq> {}
              | ModeAND \<Rightarrow> set (selectedGenres st) \<subseteq> set (genres_or_empty a)))"
proof -
  have ex: "list_ex (\<lambda>g. List.member (genres_or_empty a) g) (selectedGenres st)
              \<longleftrightarrow> set (genres_or_empty a) \<inter> set (selectedGenres st) \<noteq> {}"
    by (auto simp: list_ex_iff)
  have al: "list_all (\<lambda>g. List.member (genres_or_empty a) g) (selectedGenres st)
              \<longleftrightarrow> set (selectedGenres st) \<subseteq> set (genres_or_empty a)"
    by (auto simp: list_all_iff)
  have sc: "\<not> score_falsy (score a) \<longleftrightarrow> (score a \<noteq> None \<and> score a \<noteq> Some 0)"
    by (cases "score a") (simp_all add: score_falsy_def)
  show ?thesis
    unfolding filterAnime_keep_def Let_def ex al
    using sc by (cases "filterMode st") auto
qed

text \<open>
  C1 (amended). \<open>filterAnime\<close> returns exactly the order-preserving subsequence of the
  input whose records satisfy: adult content is shown or the record is not adult; unrated
  records are not hidden or the record's score is present and not 0; Japanese-only is off
  or \<open>is_japanese\<close> is not an explicit false; and no genre is selected, or (OR mode) the
  record shares a genre with the selection, or (AND mode) every selected genre is among
  the record's genres.
\<close>

theorem filterAnime_exact:
  "filterAnime st rs =
     filter (\<lambda>a. (showHentai st \<or> \<not> is_hentai a)
               \<and> (\<not> hideNotRated st \<or> (score a \<noteq> None \<and> score a \<noteq> Some 0))
               \<and> (\<not> japaneseOnly st \<or> is_japanese a \<noteq> Some False)
               \<and> (selectedGenres st = []
                    \<or> (case filterMode st of
                          ModeOR \<Rightarrow> set (genres_or_empty a) \<inter> set (selectedGenres st) \<noteq> {}
                        | ModeAND \<Rightarrow> set (selectedGenres st) \<subseteq> set (genres_or_empty a)))) rs
   \<and> subseq (filterAnime st rs) rs"
  unfolding filterAnime_def
  by (simp add: filterAnime_keep_iff cong: filter_cong)

theorem filterAnime_exact_witness:
  "filterAnime cfg_action [rec_A, rec_B] = [rec_A] \<and> subseq [rec_A] [rec_A, rec_B]"
  using filterAnime_exact [of cfg_action "[rec_A, rec_B]"]
  by (simp add: cfg_action_def rec_A_def rec_B_def genres_or_empty_def del: not_None_eq)

text \<open>
  The claim as written (condition 2 reads "the rating is present") fails on a record whose
  score is the number 0: the rating is present, and the filter drops the record.
\<close>

theorem filterAnime_spec_counterexample:
  "filterAnime cfg_default [rec_zero] \<noteq> filter (spec_passes cfg_default) [rec_zero]"
  by (simp add: filterAnime_def filterAnime_keep_def spec_passes_def score_falsy_def
      cfg_default_def rec_zero_def)

text \<open>
  C10. In the season browser's filter a record whose score is present and equal to 0 is
  treated as unrated: with \<open>hideNotRated\<close> on, the filter excludes it.
\<close>

theorem filterAnime_zero_score_hidden:
  "score a = Some 0 \<Longrightarrow> hideNotRated st \<Longrightarrow> a \<notin> set (filterAnime st rs)"
  by (simp add: filterAnime_def filterAnime_keep_def score_falsy_def)

theorem filterAnime_zero_score_hidden_witness:
  "score rec_zero = Some 0 \<and> hideNotRated cfg_default
   \<and> rec_zero \<notin> set (filterAnime cfg_default [rec_zero])"
proof -
  have s: "score rec_zero = Some 0" by (simp add: rec_zero_def)
  have h: "hideNotRated cfg_default" by (simp add: cfg_default_def)
  from filterAnime_zero_score_hidden [OF s h, of "[rec_zero]"] s h show ?thesis by simp
qed

section \<open>Properties of the pickers\<close>

lemma getRandomAnime_keep_iff:
  "getRandomAnime_keep st rf a \<longleftrightarrow>
     (showHentai st \<or> \<not> is_hentai a)
     \<and> (\<not> hideNotRated st \<or> score a \<noteq> None)
     \<and> (\<not> japaneseOnly st \<or> is_japanese a \<noteq> Some False)
     \<and> (selectedGenres st = []
          \<or> (case filterMode st of
                ModeOR \<Rightarrow> set (genres_or_empty a) \<inter> set (selectedGenres st) \<noteq> {}
              | ModeAND \<Rightarrow> set (selectedGenres st) \<subseteq> set (genres_or_empty a)))
     \<and> rating_filter rf a"
proof -
  have ex: "list_ex (\<lambda>g. List.member (genres_or_empty a) g) (selectedGenres st)
              \<longleftrightarrow> set (genres_or_empty a) \<inter> set (selectedGenres st) \<noteq> {}"
    by (auto simp: list_ex_iff)
  have al: "list_all (\<lambda>g. List.member (genres_or_empty a) g) (selectedGenres st)
              \<longleftrightarrow> set (selectedGenres st) \<subseteq> set (genres_or_empty a)"
    by (auto simp: list_all_iff)
  have sc: "hasScore a \<longleftrightarrow> score a \<noteq> None"
    by (cases "score a") (simp_all add: hasScore_def)
  show ?thesis
    unfolding getRandomAnime_keep_def Let_def ex al sc
    by (cases "filterMode st") auto
qed


text \<open>
  Away from the score 0 the data_cn.js picker keeps a record exactly when the season
  browser's filter keeps it and the rating tests pass.
\<close>

lemma getRandomAnime_keep_agrees:
  "score a \<noteq> Some 0 \<Longrightarrow>
     getRandomAnime_keep st rf a \<longleftrightarrow> filterAnime_keep st a \<and> rating_filter rf a"
  by (simp add: getRandomAnime_keep_iff filterAnime_keep_iff)

text \<open>
  C2. The pickers do not draw from the records the season browser's filter keeps.
  random.js keeps an adult record that the filter hides (it tests the genres only), and
  data_cn.js keeps a record rated 0 that the filter hides as unrated.
\<close>

theorem pickers_differ_from_filter:
  "filterAnime cfg_default [rec_adult] = []
   \<and> fst (getRandomAnime_random_js [] [rec_adult] (sconst zero_double)) = Picked rec_adult
   \<and> filterAnime cfg_default [rec_zero] = []
   \<and> fst (getRandomAnime_data_cn cfg_default 0 [rec_zero] (sconst zero_double)) = Picked rec_zero"
  by (simp add: filterAnime_def filterAnime_keep_def score_falsy_def
      getRandomAnime_random_js_def random_js_keep_def
      getRandomAnime_data_cn_def getRandomAnime_keep_def rating_filter_def hasScore_def
      scoreValue_def pick_at_random_def js_index_def Math_random_def floor_times_def
      round53_def floorlog_def zero_double_def
      cfg_default_def rec_adult_def rec_zero_def)












text \<open>
  C9. When no record qualifies, the filter returns the empty list and each picker returns
  the no-result value, whatever the generator is, and leaves the generator as it was.
\<close>

theorem empty_result:
  "((\<forall>a \<in> set rs. \<not> filterAnime_keep st a) \<longrightarrow> filterAnime st rs = [])
   \<and> ((\<forall>a \<in> set rs. \<not> getRandomAnime_keep st rf a)
        \<longrightarrow> getRandomAnime_data_cn st rf rs g = (NoResult, g))
   \<and> ((\<forall>a \<in> set rs. \<not> random_js_keep selected a)
        \<longrightarrow> getRandomAnime_random_js selected rs g = (NoResult, g))"
  by (simp add: filterAnime_def getRandomAnime_data_cn_def getRandomAnime_random_js_def
      pick_at_random_def filter_empty_conv)

theorem empty_result_witness:
  "filterAnime cfg_action [rec_B] = []
   \<and> getRandomAnime_data_cn cfg_action 0 [rec_B] (sconst half_double)
       = (NoResult, sconst half_double)
   \<and> getRandomAnime_random_js [''Action''] [rec_B] (sconst half_double)
       = (NoResult, sconst half_double)"
proof -
  have f: "\<forall>a \<in> set [rec_B]. \<not> filterAnime_keep cfg_action a"
    by (simp add: filterAnime_keep_def score_falsy_def cfg_action_def rec_B_def)
  have g: "\<forall>a \<in> set [rec_B]. \<not> getRandomAnime_keep cfg_action 0 a"
    by (simp add: getRandomAnime_keep_def hasScore_def cfg_action_def rec_B_def)
  have h: "\<forall>a \<in> set [rec_B]. \<not> random_js_keep [''Action''] a"
    by (simp add: random_js_keep_def rec_B_def)
  from empty_result [of "[rec_B]" cfg_action 0 "sconst half_double" "[''Action'']"] f g h
  show ?thesis by blast
qed

section \<open>Properties of the loader\<close>

lemma season_promise_eq: "season_promise net item = Fulfilled (partition_records net item)"
  by (cases "net item") (simp_all add: season_promise_def season_try_def partition_records_def)

lemma all_settle_fulfilled:
  assumes "\<forall>i < length ps. ps ! i = Fulfilled (f i)" "length vals = length ps"
    "\<forall>i < length ps. vals ! i = None \<or> vals ! i = Some (f i)"
    "\<forall>i < length ps. vals ! i = None \<longrightarrow> i \<in> set order"
  shows "all_settle order ps vals = Fulfilled (map f [0..<length ps])"
  using assms
proof (induction order arbitrary: vals)
  case Nil
  have "\<forall>i < length ps. vals ! i = Some (f i)"
    using Nil.prems(3,4) by (metis empty_iff list.set(1))
  with Nil(2) have "vals = map (\<lambda>i. Some (f i)) [0..<length ps]"
    by (auto intro: nth_equalityI)
  then show ?case by (simp add: list_all_iff comp_def)
next
  case (Cons j order)
  show ?case
  proof (cases "j < length ps")
    case True
    have "all_settle order ps (vals[j := Some (f j)]) = Fulfilled (map f [0..<length ps])"
    proof (rule Cons.IH)
      show "\<forall>i<length ps. ps ! i = Fulfilled (f i)" by fact
      show "length (vals[j := Some (f j)]) = length ps" using Cons.prems(2) by simp
      show "\<forall>i<length ps. vals[j := Some (f j)] ! i = None \<or> vals[j := Some (f j)] ! i = Some (f i)"
      proof (intro allI impI)
        fix i assume i: "i < length ps"
        show "vals[j := Some (f j)] ! i = None \<or> vals[j := Some (f j)] ! i = Some (f i)"
        proof (cases "i = j")
          case True
          then show ?thesis using i Cons.prems(2) by simp
        next
          case False
          then show ?thesis using i Cons.prems(3) by simp
        qed
      qed
      show "\<forall>i<length ps. vals[j := Some (f j)] ! i = None \<longrightarrow> i \<in> set order"
      proof (intro allI impI)
        fix i assume i: "i < length ps" and n: "vals[j := Some (f j)] ! i = None"
        have "i \<noteq> j" using i n Cons.prems(2) by auto
        then have "vals ! i = None" using n by simp
        then have "i \<in> set (j # order)" using Cons.prems(4) i by blast
        with \<open>i \<noteq> j\<close> show "i \<in> set order" by simp
      qed
    qed
    with True Cons.prems(1) show ?thesis by simp
  next
    case False
    have "all_settle order ps vals = Fulfilled (map f [0..<length ps])"
    proof (rule Cons.IH)
      show "\<forall>i<length ps. vals ! i = None \<longrightarrow> i \<in> set order"
        using Cons.prems(4) False by auto
    qed (use Cons.prems in auto)
    with False show ?thesis by simp
  qed
qed

lemma Promise_all_fulfilled:
  assumes "\<forall>i < length ps. ps ! i = Fulfilled (f i)" "{..<length ps} \<subseteq> set order"
  shows "Promise_all order ps = Fulfilled (map f [0..<length ps])"
  unfolding Promise_all_def
  by (rule all_settle_fulfilled) (use assms in auto)

lemma load_body_complete:
  assumes "{..<length items} \<subseteq> set order"
  shows "load_body net order items = Fulfilled (concat (map (partition_records net) items))"
proof -
  let ?ps = "map (season_promise net) items"
  have "Promise_all order ?ps = Fulfilled (map (\<lambda>i. partition_records net (items ! i)) [0..<length ?ps])"
    by (rule Promise_all_fulfilled) (use assms in \<open>auto simp: season_promise_eq\<close>)
  moreover have "map (\<lambda>i. partition_records net (items ! i)) [0..<length items] = map (partition_records net) items"
    by (rule nth_equalityI) simp_all
  ultimately show ?thesis by (simp add: load_body_def)
qed




text \<open>
  C7. When every partition fetch has completed, in whatever order, the loaded result is
  the concatenation, in manifest order, of each fetched partition's records in the
  partition's own order, each record carrying its partition's year and season.
\<close>

theorem load_in_manifest_order:
  assumes "{..<length items} \<subseteq> set order"
  shows "load_body net order items =
           Fulfilled (concat (map (\<lambda>item.
             case net item of
               Body seasonData \<Rightarrow>
                 map (\<lambda>a. a\<lparr>year := Some (item_year item), season := Some (item_season item)\<rparr>)
                   seasonData
             | _ \<Rightarrow> []) items))"
proof -
  have "partition_records net = (\<lambda>item.
             case net item of
               Body seasonData \<Rightarrow>
                 map (\<lambda>a. a\<lparr>year := Some (item_year item), season := Some (item_season item)\<rparr>)
                   seasonData
             | _ \<Rightarrow> [])"
    by (rule ext) (simp add: partition_records_def annotate_def split: response.splits)
  with load_body_complete [OF assms, of net] show ?thesis by simp
qed

theorem load_in_manifest_order_witness:
  "load_body net_ok [1, 0] [winter24, spring24] =
     Fulfilled [rec_A\<lparr>year := Some 2024, season := Some ''winter''\<rparr>,
                rec_B\<lparr>year := Some 2024, season := Some ''winter''\<rparr>,
                rec_zero\<lparr>year := Some 2024, season := Some ''spring''\<rparr>]"
proof -
  have c: "{..<length [winter24, spring24]} \<subseteq> set [1, 0]" by auto
  from load_in_manifest_order [OF c, of net_ok] show ?thesis
    by (simp add: net_ok_def winter24_def spring24_def)
qed










section \<open>Properties of the genre lists\<close>

lemma fold_genres_concat:
  "fold (\<lambda>anime acc. case genres anime of None \<Rightarrow> acc | Some gs \<Rightarrow> fold f gs acc) rs acc0
     = fold f (all_genres rs) acc0"
  by (induction rs arbitrary: acc0)
     (simp_all add: all_genres_def genres_or_empty_def split: option.splits)

lemma map_of_map_set: "map_of (map_set k v m) = (map_of m)(k \<mapsto> v)"
  by (induction k v m rule: map_set.induct) (auto simp: fun_eq_iff)

lemma set_keys_map_set: "fst ` set (map_set k v m) = insert k (fst ` set m)"
  by (induction k v m rule: map_set.induct) (auto split: if_splits)

lemma distinct_keys_map_set: "distinct (map fst (map_set k v m)) = distinct (map fst m)"
  by (induction k v m rule: map_set.induct) (auto simp: set_keys_map_set split: if_splits)

lemma count_list_filter: "P g \<Longrightarrow> count_list (filter P ws) g = count_list ws g"
  by (induction ws) auto

lemma count_genre_props:
  assumes "distinct (map fst m)"
  shows "distinct (map fst (count_genre m g))"
    and "fst ` set (count_genre m g) = fst ` set m \<union> (if genre_counted g then {g} else {})"
    and "cnt (count_genre m g) h = cnt m h + (if genre_counted g \<and> g = h then 1 else 0)"
  using assms
  by (auto simp: count_genre_def set_keys_map_set distinct_keys_map_set cnt_def map_of_map_set
      split: option.splits)

lemma fold_count_genre:
  assumes "distinct (map fst m)"
  shows "distinct (map fst (fold (\<lambda>g m. count_genre m g) ws m))
       \<and> fst ` set (fold (\<lambda>g m. count_genre m g) ws m)
           = fst ` set m \<union> {g \<in> set ws. genre_counted g}
       \<and> (\<forall>h. cnt (fold (\<lambda>g m. count_genre m g) ws m) h
                = cnt m h + count_list (filter genre_counted ws) h)"
  using assms
proof (induction ws arbitrary: m)
  case Nil
  then show ?case by simp
next
  case (Cons w ws)
  let ?m' = "count_genre m w"
  note d = count_genre_props [OF Cons.prems, of w]
  note ih = Cons.IH [OF d(1)]
  have a: "distinct (map fst (fold (\<lambda>g m. count_genre m g) (w # ws) m))"
    using ih by simp
  have "fst ` set (fold (\<lambda>g m. count_genre m g) (w # ws) m)
          = fst ` set ?m' \<union> {g \<in> set ws. genre_counted g}"
    using ih by simp
  also have "\<dots> = fst ` set m \<union> {g \<in> set (w # ws). genre_counted g}"
    unfolding d(2) by auto
  finally have b: "fst ` set (fold (\<lambda>g m. count_genre m g) (w # ws) m)
          = fst ` set m \<union> {g \<in> set (w # ws). genre_counted g}" .
  have c: "\<forall>h. cnt (fold (\<lambda>g m. count_genre m g) (w # ws) m) h
                = cnt m h + count_list (filter genre_counted (w # ws)) h"
  proof
    fix h
    have "cnt (fold (\<lambda>g m. count_genre m g) (w # ws) m) h
            = cnt ?m' h + count_list (filter genre_counted ws) h"
      using ih by simp
    also have "\<dots> = cnt m h + count_list (filter genre_counted (w # ws)) h"
      unfolding d(3) by simp
    finally show "cnt (fold (\<lambda>g m. count_genre m g) (w # ws) m) h
                = cnt m h + count_list (filter genre_counted (w # ws)) h" .
  qed
  from a b c show ?case by blast
qed

lemma count_genres_props:
  "distinct (map fst (count_genres rs))"
  "fst ` set (count_genres rs) = {g \<in> set (all_genres rs). genre_counted g}"
  "(g, c) \<in> set (count_genres rs) \<Longrightarrow> c = count_list (all_genres rs) g"
proof -
  have eq: "count_genres rs = fold (\<lambda>g m. count_genre m g) (all_genres rs) []"
    unfolding count_genres_def by (rule fold_genres_concat)
  have "distinct (map fst ([] :: (string \<times> nat) list))" by simp
  note f = fold_count_genre [OF this, of "all_genres rs", folded eq]
  show d: "distinct (map fst (count_genres rs))" using f by blast
  show k: "fst ` set (count_genres rs) = {g \<in> set (all_genres rs). genre_counted g}"
    using f by simp
  assume gc: "(g, c) \<in> set (count_genres rs)"
  then have "map_of (count_genres rs) g = Some c" using d by simp
  then have "c = cnt (count_genres rs) g" by (simp add: cnt_def)
  also have "\<dots> = count_list (filter genre_counted (all_genres rs)) g"
    using f by (simp add: cnt_def)
  also have "genre_counted g" using gc k by force
  then have "count_list (filter genre_counted (all_genres rs)) g = count_list (all_genres rs) g"
    by (rule count_list_filter)
  finally show "c = count_list (all_genres rs) g" .
qed


lemma take_drop_sorted_keys:
  assumes "sorted (map k ss)" "x \<in> set (take n ss)" "y \<in> set (drop n ss)"
  shows "k x \<le> k y"
proof -
  have "sorted (map k (take n ss) @ map k (drop n ss))"
    using assms(1) by (simp flip: map_append)
  then show ?thesis using assms(2,3) by (auto simp: sorted_append)
qed

lemma loadGenres_props:
  fixes rs :: "anime list"
  defines "kept \<equiv> take 30 (sort_key (\<lambda>entry. - int (snd entry)) (count_genres rs))"
  shows "set (loadGenres rs) = fst ` set kept"
    and "distinct (map fst kept)"
    and "length (loadGenres rs) = min 30 (card {g \<in> set (all_genres rs). genre_counted g})"
    and "g \<in> set (loadGenres rs) \<Longrightarrow> genre_counted h \<Longrightarrow> h \<in> set (all_genres rs)
           \<Longrightarrow> h \<notin> set (loadGenres rs)
           \<Longrightarrow> count_list (all_genres rs) h \<le> count_list (all_genres rs) g"
proof -
  let ?k = "\<lambda>entry :: string \<times> nat. - int (snd entry)"
  let ?es = "count_genres rs"
  let ?ss = "sort_key ?k ?es"
  note p = count_genres_props [where rs = rs]
  show s: "set (loadGenres rs) = fst ` set kept"
    by (simp add: loadGenres_def kept_def)
  have dss: "distinct (map fst ?ss)"
    using p(1) by (simp add: distinct_map)
  then have "distinct (take 30 (map fst ?ss))" by (rule distinct_take)
  then show "distinct (map fst kept)" by (simp add: kept_def take_map)
  have "length ?es = card (fst ` set ?es)"
    using distinct_card [OF p(1)] by simp
  then show "length (loadGenres rs) = min 30 (card {g \<in> set (all_genres rs). genre_counted g})"
    by (simp add: loadGenres_def p(2) min.commute)
  assume g: "g \<in> set (loadGenres rs)" and hc: "genre_counted h"
    and hs: "h \<in> set (all_genres rs)" and hn: "h \<notin> set (loadGenres rs)"
  from g s obtain cg where cg: "(g, cg) \<in> set kept" by auto
  then have "(g, cg) \<in> set ?ss" unfolding kept_def by (rule in_set_takeD)
  then have cg': "cg = count_list (all_genres rs) g" using p(3) by simp
  from hc hs p(2) have "h \<in> fst ` set ?es" by simp
  then obtain ch where ch: "(h, ch) \<in> set ?es" by auto
  then have ch': "ch = count_list (all_genres rs) h" using p(3) by simp
  have "(h, ch) \<notin> set kept" using hn s by force
  moreover have "(h, ch) \<in> set (take 30 ?ss @ drop 30 ?ss)" using ch by simp
  ultimately have "(h, ch) \<in> set (drop 30 ?ss)" unfolding kept_def set_append by blast
  with cg have "?k (g, cg) \<le> ?k (h, ch)"
    unfolding kept_def by (intro take_drop_sorted_keys [where k = ?k and ss = ?ss and n = 30]) simp_all
  then show "count_list (all_genres rs) h \<le> count_list (all_genres rs) g"
    using cg' ch' by simp
qed

lemma fold_set_add:
  assumes "distinct S"
  shows "distinct (fold (\<lambda>genre S. if genre_counted genre then set_add genre S else S) ws S)
       \<and> set (fold (\<lambda>genre S. if genre_counted genre then set_add genre S else S) ws S)
           = set S \<union> {g \<in> set ws. genre_counted g}"
  using assms
proof (induction ws arbitrary: S)
  case Nil
  then show ?case by simp
next
  case (Cons w ws)
  let ?S' = "if genre_counted w then set_add w S else S"
  have d: "distinct ?S'" using Cons.prems by (simp add: set_add_def)
  have e: "set ?S' = set S \<union> (if genre_counted w then {w} else {})"
    by (auto simp: set_add_def)
  from Cons.IH [OF d] show ?case unfolding e by (simp, auto)
qed

lemma extractGenres_props:
  "sorted (extractGenres rs)" "distinct (extractGenres rs)"
  "set (extractGenres rs) = {g \<in> set (all_genres rs). genre_counted g}"
proof -
  have eq: "extractGenres rs
      = sort (fold (\<lambda>genre S. if genre_counted genre then set_add genre S else S) (all_genres rs) [])"
    unfolding extractGenres_def by (simp only: fold_genres_concat)
  have "distinct ([] :: string list)" by simp
  note f = fold_set_add [OF this, of "all_genres rs"]
  show "sorted (extractGenres rs)" by (simp add: eq)
  show "distinct (extractGenres rs)" using f by (simp add: eq)
  show "set (extractGenres rs) = {g \<in> set (all_genres rs). genre_counted g}"
    using f by (simp add: eq)
qed

lemma many_genres_distinct: "distinct many_genres"
  by (simp add: many_genres_def distinct_map inj_on_def)

lemma many_genres_length: "length many_genres = 31"
  by (simp add: many_genres_def)

lemma many_genres_counted: "g \<in> set many_genres \<Longrightarrow> g \<noteq> [] \<and> g \<noteq> ''Hentai''"
  by (auto simp: many_genres_def)

lemma many_genres_head: "many_genres = ''A'' # tl many_genres"
  by (simp add: many_genres_def)

lemma count_list_distinct: "distinct xs \<Longrightarrow> count_list xs h = (if h \<in> set xs then 1 else 0)"
  by (induction xs) auto

text \<open>
  C6 (amended). \<open>loadGenres\<close> returns a sorted list without repetition of genres that
  occur in the collection and are neither empty nor the adult genre; it has 30 entries,
  or all such genres when there are fewer; and the cut is by frequency: a genre that
  occurs in the collection and is not listed occurs at most as often as every listed
  genre, wherever it stands in the alphabet. \<open>extractGenres\<close> returns all the distinct
  non-empty, non-adult genres of the collection, sorted, with no cut.
\<close>

theorem genre_lists:
  "sorted (loadGenres rs) \<and> distinct (loadGenres rs)
   \<and> set (loadGenres rs) \<subseteq> {g \<in> set (all_genres rs). g \<noteq> [] \<and> g \<noteq> ''Hentai''}
   \<and> length (loadGenres rs)
       = min 30 (card {g \<in> set (all_genres rs). g \<noteq> [] \<and> g \<noteq> ''Hentai''})
   \<and> (\<forall>g \<in> set (loadGenres rs). \<forall>h \<in> set (all_genres rs).
         h \<noteq> [] \<and> h \<noteq> ''Hentai'' \<and> h \<notin> set (loadGenres rs)
         \<longrightarrow> count_list (all_genres rs) h \<le> count_list (all_genres rs) g)
   \<and> sorted (extractGenres rs) \<and> distinct (extractGenres rs)
   \<and> set (extractGenres rs) = {g \<in> set (all_genres rs). g \<noteq> [] \<and> g \<noteq> ''Hentai''}"
proof -
  note p = loadGenres_props [where rs = rs]
  note c = count_genres_props [where rs = rs]
  note e = extractGenres_props [where rs = rs]
  have a: "sorted (loadGenres rs)" by (simp add: loadGenres_def)
  have b: "distinct (loadGenres rs)" using p(2) by (simp add: loadGenres_def)
  have "set (loadGenres rs) \<subseteq> fst ` set (count_genres rs)"
    unfolding p(1) using set_take_subset [of 30 "sort_key (\<lambda>entry. - int (snd entry)) (count_genres rs)"]
    by auto
  then have s: "set (loadGenres rs) \<subseteq> {g \<in> set (all_genres rs). g \<noteq> [] \<and> g \<noteq> ''Hentai''}"
    unfolding c(2) by (simp add: genre_counted_def)
  have l: "length (loadGenres rs)
       = min 30 (card {g \<in> set (all_genres rs). g \<noteq> [] \<and> g \<noteq> ''Hentai''})"
    using p(3) by (simp add: genre_counted_def)
  have f: "\<forall>g \<in> set (loadGenres rs). \<forall>h \<in> set (all_genres rs).
         h \<noteq> [] \<and> h \<noteq> ''Hentai'' \<and> h \<notin> set (loadGenres rs)
         \<longrightarrow> count_list (all_genres rs) h \<le> count_list (all_genres rs) g"
    using p(4) by (simp add: genre_counted_def)
  have x: "set (extractGenres rs) = {g \<in> set (all_genres rs). g \<noteq> [] \<and> g \<noteq> ''Hentai''}"
    using e(3) by (simp add: genre_counted_def)
  from a b s l f e(1,2) x show ?thesis by blast
qed

lemma two_records_genres:
  "all_genres [rec_many, rec_most] = many_genres @ tl many_genres"
  by (simp add: all_genres_def genres_or_empty_def rec_many_def rec_most_def)

lemma two_records_freq:
  "count_list (all_genres [rec_many, rec_most]) ''A'' = 1"
  "h \<in> set many_genres \<Longrightarrow> h \<noteq> ''A'' \<Longrightarrow> count_list (all_genres [rec_many, rec_most]) h = 2"
proof -
  have d: "distinct (''A'' # tl many_genres)"
    using many_genres_distinct many_genres_head by simp
  then have dt: "distinct (tl many_genres)" and nA: "''A'' \<notin> set (tl many_genres)" by simp_all
  have c: "count_list (many_genres @ tl many_genres) k
             = count_list many_genres k + count_list (tl many_genres) k" for k
    by (induction many_genres) simp_all
  show "count_list (all_genres [rec_many, rec_most]) ''A'' = 1"
    unfolding two_records_genres c
    using nA many_genres_head
    by (simp add: count_list_distinct [OF many_genres_distinct] count_list_distinct [OF dt])
       (metis list.set_intros(1))
  assume h: "h \<in> set many_genres" "h \<noteq> ''A''"
  then have "h \<in> set (tl many_genres)"
    using many_genres_head by (metis set_ConsD)
  then show "count_list (all_genres [rec_many, rec_most]) h = 2"
    unfolding two_records_genres c using h(1)
    by (simp add: count_list_distinct [OF many_genres_distinct] count_list_distinct [OF dt])
qed

theorem genre_lists_witness:
  "length (loadGenres [rec_many, rec_most]) = 30
   \<and> ''A'' \<notin> set (loadGenres [rec_many, rec_most])
   \<and> count_list (all_genres [rec_many, rec_most]) ''A'' = 1"
proof -
  let ?rs = "[rec_many, rec_most]"
  let ?R = "loadGenres ?rs"
  note T = genre_lists [of ?rs]
  have sg: "set (all_genres ?rs) = set many_genres"
    unfolding two_records_genres set_append
    using set_mono_suffix [OF suffix_tl [of many_genres]] by blast
  have E: "{g \<in> set (all_genres ?rs). g \<noteq> [] \<and> g \<noteq> ''Hentai''} = set many_genres"
    unfolding sg using many_genres_counted by blast
  have cE: "card (set many_genres) = 31"
    using distinct_card [OF many_genres_distinct] many_genres_length by simp
  from T have "length ?R = min 30 (card {g \<in> set (all_genres ?rs). g \<noteq> [] \<and> g \<noteq> ''Hentai''})"
    by blast
  then have len: "length ?R = 30" unfolding E cE by simp
  from T have dR: "distinct ?R" by blast
  have cR: "card (set ?R) = 30" using distinct_card [OF dR] len by simp
  from T have "set ?R \<subseteq> {g \<in> set (all_genres ?rs). g \<noteq> [] \<and> g \<noteq> ''Hentai''}" by blast
  then have sR: "set ?R \<subseteq> set many_genres" unfolding E .
  from T have fr: "\<forall>g \<in> set ?R. \<forall>h \<in> set (all_genres ?rs).
         h \<noteq> [] \<and> h \<noteq> ''Hentai'' \<and> h \<notin> set ?R
         \<longrightarrow> count_list (all_genres ?rs) h \<le> count_list (all_genres ?rs) g"
    by blast
  have nA: "''A'' \<notin> set ?R"
  proof
    assume A: "''A'' \<in> set ?R"
    have "set ?R \<noteq> set many_genres" using cR cE by auto
    with sR obtain h where h: "h \<in> set many_genres" "h \<notin> set ?R" by blast
    then have hA: "h \<noteq> ''A''" using A by blast
    have hc: "h \<noteq> [] \<and> h \<noteq> ''Hentai''" using many_genres_counted h(1) by blast
    have "h \<in> set (all_genres ?rs)" using h(1) sg by simp
    with fr A h(2) hc
    have "count_list (all_genres ?rs) h \<le> count_list (all_genres ?rs) ''A''"
      by blast
    then show False using two_records_freq(1) two_records_freq(2) [OF h(1) hA] by simp
  qed
  from len nA two_records_freq(1) show ?thesis by blast
qed

text \<open>
  The claim as written fails for the season browser's list: on a collection with 31
  different genres \<open>extractGenres\<close> returns 31 genres, not the top 30.
\<close>

theorem extractGenres_untruncated_counterexample:
  "length (extractGenres [rec_many]) = 31"
proof -
  have ag: "all_genres [rec_many] = many_genres"
    by (simp add: all_genres_def genres_or_empty_def rec_many_def)
  have "{g \<in> set (all_genres [rec_many]). genre_counted g} = set many_genres"
    unfolding ag genre_counted_def using many_genres_counted by blast
  then have "set (extractGenres [rec_many]) = set many_genres"
    by (simp only: extractGenres_props(3))
  then have "card (set (extractGenres [rec_many])) = card (set many_genres)" by simp
  moreover have "card (set (extractGenres [rec_many])) = length (extractGenres [rec_many])"
    using extractGenres_props(2) by (rule distinct_card)
  moreover have "card (set many_genres) = length many_genres"
    using many_genres_distinct by (rule distinct_card)
  ultimately show ?thesis using many_genres_length by simp
qed

end
